theory Spec2Isabelle
  imports Main
begin

section \<open>Python text\<close>

text \<open>
  A Python \<open>str\<close> is a sequence of Unicode code points. It is modelled as a list of
  natural numbers, one per code point; \<open>ustr\<close> reads an ASCII literal into that form.
\<close>

type_synonym pystr = "nat list"

definition ustr :: "string \<Rightarrow> pystr" where
  "ustr s = map of_char s"

text \<open>
  The code points for which \<open>str.isspace\<close> holds. \<open>str.strip()\<close> without argument
  and the class \<open>\s\<close> of a \<open>str\<close> pattern both use exactly this set.
\<close>

definition is_space :: "nat \<Rightarrow> bool" where
  "is_space c \<longleftrightarrow>
     (9 \<le> c \<and> c \<le> 13) \<or> (28 \<le> c \<and> c \<le> 32) \<or> c = 133 \<or> c = 160 \<or> c = 5760 \<or>
     (8192 \<le> c \<and> c \<le> 8202) \<or> c = 8232 \<or> c = 8233 \<or> c = 8239 \<or> c = 8287 \<or> c = 12288"

definition strip :: "pystr \<Rightarrow> pystr" where
  "strip s = rev (dropWhile is_space (rev (dropWhile is_space s)))"

definition startswith :: "pystr \<Rightarrow> pystr \<Rightarrow> bool" where
  "startswith s p \<longleftrightarrow> take (length p) s = p"

section \<open>The regular expressions of the source\<close>

text \<open>
  Every pattern of the source is a concatenation of literals, \<open>\s*\<close> (greedy),
  \<open>.*?\<close> (lazy, any code point but the newline) and the anchor \<open>^\<close> (start of the
  subject, as no flag is given). \<open>rmatch\<close> is the backtracking matcher of \<open>re\<close> on
  such a pattern: it returns the rest of the subject after the first match that the
  backtracking order finds at the current position. The flag tells whether the
  current position is the start of the subject.
\<close>

datatype atom = Lit pystr | SpaceStar | AnyLazy | Bos

fun rmatch :: "bool \<Rightarrow> atom list \<Rightarrow> pystr \<Rightarrow> pystr option" where
  "rmatch b [] s = Some s"
| "rmatch b (Bos # r) s = (if b then rmatch b r s else None)"
| "rmatch b (Lit l # r) s =
     (if startswith s l then rmatch (b \<and> l = []) r (drop (length l) s) else None)"
| "rmatch b (SpaceStar # r) [] = rmatch b r []"
| "rmatch b (SpaceStar # r) (c # cs) =
     (if is_space c
      then (case rmatch False (SpaceStar # r) cs of
              Some t \<Rightarrow> Some t
            | None \<Rightarrow> rmatch b r (c # cs))
      else rmatch b r (c # cs))"
| "rmatch b (AnyLazy # r) [] = rmatch b r []"
| "rmatch b (AnyLazy # r) (c # cs) =
     (case rmatch b r (c # cs) of
        Some t \<Rightarrow> Some t
      | None \<Rightarrow> if c \<noteq> 10 then rmatch False (AnyLazy # r) cs else None)"

text \<open>
  \<open>re.sub(pattern, repl, s)\<close> for a replacement without group references: the subject
  is scanned from the left, every match is replaced and the scan goes on behind it; a
  code point at which nothing matches is copied. No pattern of the source matches the
  empty string (lemma \<open>rmatch_patterns_consume\<close>); the branch for an empty match
  replaces, copies one code point and moves on.
\<close>

function re_sub_from :: "bool \<Rightarrow> atom list \<Rightarrow> pystr \<Rightarrow> pystr \<Rightarrow> pystr" where
  "re_sub_from b p repl [] = (case rmatch b p [] of Some t \<Rightarrow> repl | None \<Rightarrow> [])"
| "re_sub_from b p repl (c # cs) =
     (case rmatch b p (c # cs) of
        Some t \<Rightarrow>
          if length t < length (c # cs) then repl @ re_sub_from False p repl t
          else repl @ c # re_sub_from False p repl cs
      | None \<Rightarrow> c # re_sub_from False p repl cs)"
  by pat_completeness auto
termination
  by (relation "measure (\<lambda>(b, p, repl, s). length s)") auto

definition re_sub :: "atom list \<Rightarrow> pystr \<Rightarrow> pystr \<Rightarrow> pystr" where
  "re_sub p repl s = re_sub_from True p repl s"

definition fence :: pystr where
  "fence = ustr ''```''"

definition end_code :: pystr where
  "end_code = ustr ''<end_code>''"

text \<open>The six patterns, in the order in which the source uses them.\<close>

definition pat_fence_end :: "atom list" where
  "pat_fence_end = [Lit fence, SpaceStar, Lit end_code]"

definition pat_end_fence :: "atom list" where
  "pat_end_fence = [Lit end_code, SpaceStar, Lit fence]"

definition pat_fence_nl_end :: "atom list" where
  "pat_fence_nl_end = [Lit fence, SpaceStar, Lit [10], SpaceStar, Lit end_code]"

definition pat_open_fence :: "atom list" where
  "pat_open_fence = [Lit fence, AnyLazy, Lit [10]]"

definition pat_end_tag :: "atom list" where
  "pat_end_tag = [SpaceStar, Lit end_code, SpaceStar]"

definition pat_exec_logs :: "atom list" where
  "pat_exec_logs = [Bos, Lit (ustr ''Execution logs:''), SpaceStar]"

section \<open>Formatting numbers\<close>

text \<open>\<open>str(n)\<close> of an integer: its decimal digits, with a minus sign when negative.\<close>

fun digits :: "nat \<Rightarrow> pystr" where
  "digits n = (if n < 10 then [48 + n] else digits (n div 10) @ [48 + n mod 10])"

declare digits.simps [simp del]

definition str_int :: "int \<Rightarrow> pystr" where
  "str_int i = (if i < 0 then 45 # digits (nat (- i)) else digits (nat i))"

text \<open>The format \<open>{n:,}\<close> of an integer: a comma before every group of three digits.\<close>

fun group3 :: "pystr \<Rightarrow> pystr" where
  "group3 ds =
     (if length ds \<le> 3 then ds
      else group3 (take (length ds - 3) ds) @ 44 # drop (length ds - 3) ds)"

declare group3.simps [simp del]

definition fmt_thousands :: "int \<Rightarrow> pystr" where
  "fmt_thousands i =
     (if i < 0 then 45 # group3 (digits (nat (- i))) else group3 (digits (nat i)))"

text \<open>
  A finite \<open>float\<close> is a dyadic rational: \<open>Dyadic m e\<close> stands for \<open>m * 2 ^ e\<close> when
  \<open>0 \<le> e\<close> and for \<open>m / 2 ^ (- e)\<close> otherwise. \<open>round(x, 2)\<close> rounds the exact value
  to the nearest multiple of one hundredth, a tie to the even one; \<open>hundredths\<close> is that
  multiple. \<open>str\<close> of the rounded float prints the shortest decimal that reads back as
  the same float, which for a magnitude below \<open>10 ^ 13\<close> is the rounded decimal itself
  with at least one digit behind the point. Infinities, NaN and larger magnitudes are
  outside this model.
\<close>

datatype pyfloat = Dyadic int int

fun float_truthy :: "pyfloat \<Rightarrow> bool" where
  "float_truthy (Dyadic m e) \<longleftrightarrow> m \<noteq> 0"

definition round_half_even :: "int \<Rightarrow> int \<Rightarrow> int" where
  "round_half_even a b =
     (let q = a div b; r = a mod b
      in if 2 * r < b then q
         else if b < 2 * r then q + 1
         else if even q then q else q + 1)"

fun hundredths :: "pyfloat \<Rightarrow> int" where
  "hundredths (Dyadic m e) =
     (if 0 \<le> e then m * 100 * 2 ^ nat e else round_half_even (m * 100) (2 ^ nat (- e)))"

fun float_negative :: "pyfloat \<Rightarrow> bool" where
  "float_negative (Dyadic m e) \<longleftrightarrow> m < 0"

definition str_round2 :: "pyfloat \<Rightarrow> pystr" where
  "str_round2 x =
     (let h = nat \<bar>hundredths x\<bar>; f = h mod 100
      in (if float_negative x then [45] else []) @ digits (h div 100) @ 46 #
         (if f mod 10 = 0 then [48 + f div 10] else [48 + f div 10, 48 + f mod 10]))"

section \<open>Messages and the generator\<close>

text \<open>
  A \<open>gr.ChatMessage\<close>: its content is a text or a file reference (the dictionary with
  the keys \<open>path\<close> and \<open>mime_type\<close>), its metadata a dictionary in which each of the
  keys \<open>title\<close>, \<open>id\<close>, \<open>parent_id\<close> and \<open>status\<close> is present or not.
\<close>

datatype message_content = Text pystr | FileRef pystr pystr

record metadata =
  title :: "pystr option"
  id_key :: "pystr option"
  parent_id :: "pystr option"
  status :: "pystr option"

record chat_message =
  role :: pystr
  content :: message_content
  metadata :: metadata

definition no_metadata :: metadata where
  "no_metadata = \<lparr>title = None, id_key = None, parent_id = None, status = None\<rparr>"

definition assistant :: "pystr \<Rightarrow> chat_message" where
  "assistant c = \<lparr>role = ustr ''assistant'', content = Text c, metadata = no_metadata\<rparr>"

text \<open>
  A generator hands message objects to its consumer, and the source changes one of them
  after it was handed over. The state of a running generator is therefore a store of the
  message objects built so far (the address of an object is its index) and the list of
  yields: the address yielded and the value the object had at that moment.
\<close>

record gen =
  store :: "chat_message list"
  yielded :: "(nat \<times> chat_message) list"

definition gen_empty :: gen where
  "gen_empty = \<lparr>store = [], yielded = []\<rparr>"

definition yield_new :: "chat_message \<Rightarrow> gen \<Rightarrow> gen" where
  "yield_new m g =
     \<lparr>store = store g @ [m], yielded = yielded g @ [(length (store g), m)]\<rparr>"

definition set_status :: "nat \<Rightarrow> pystr \<Rightarrow> gen \<Rightarrow> gen" where
  "set_status a v g =
     g\<lparr>store := (store g)[a := (store g ! a)\<lparr>metadata := (metadata (store g ! a))\<lparr>status := Some v\<rparr>\<rparr>]\<rparr>"

definition messages :: "gen \<Rightarrow> chat_message list" where
  "messages g = map snd (yielded g)"

datatype exn = IndexError | TypeError | AttributeError | UnboundLocalError | ModuleNotFoundError

section \<open>Steps\<close>

text \<open>
  \<open>hasattr(obj, name)\<close> is a question about the object, apart from the value of the
  attribute: \<open>NoAttr\<close> is an object without the attribute, \<open>Attr v\<close> one that has it
  with value \<open>v\<close>, and \<open>None\<close> is a value like any other.
\<close>

datatype 'a attr = NoAttr | Attr 'a

text \<open>
  An object of which the source only takes \<open>str()\<close>: a string, which is its own
  \<open>str()\<close>, or any other object, given by the text that \<open>str()\<close> returns for it.
\<close>

datatype pyobj = PyStr pystr | PyOther pystr

fun py_str :: "pyobj \<Rightarrow> pystr" where
  "py_str (PyStr s) = s"
| "py_str (PyOther r) = r"

text \<open>
  The arguments of a tool call: a dictionary with string keys, given by its items and by
  the text of \<open>str()\<close> of the whole dictionary, or any other object.
\<close>

datatype tool_arguments = ArgsDict "(pystr \<times> pyobj) list" pystr | ArgsOther pyobj

record tool_call =
  name :: pystr
  arguments :: tool_arguments

record action_step =
  step_number :: "int option"
  model_output :: "pystr option attr"
  tool_calls :: "tool_call list option attr"
  observations :: "pystr option attr"
  error :: "pyobj option attr"
  input_token_count :: "int option attr"
  output_token_count :: "int option attr"
  duration :: "pyfloat option attr"

datatype memory_step = ActionStep action_step | OtherStep pyobj

section \<open>pull_messages_from_step\<close>

definition step_label :: "action_step \<Rightarrow> pystr" where
  "step_label st = (case step_number st of None \<Rightarrow> [] | Some n \<Rightarrow> ustr ''Step '' @ str_int n)"

definition clean_model_output :: "pystr \<Rightarrow> pystr" where
  "clean_model_output mo =
     strip (re_sub pat_fence_nl_end fence
             (re_sub pat_end_fence fence
               (re_sub pat_fence_end fence (strip mo))))"

definition model_output_part :: "action_step \<Rightarrow> gen \<Rightarrow> gen" where
  "model_output_part st g =
     (case model_output st of
        Attr (Some mo) \<Rightarrow> yield_new (assistant (clean_model_output mo)) g
      | _ \<Rightarrow> g)"

fun arguments_content :: "tool_arguments \<Rightarrow> pystr" where
  "arguments_content (ArgsDict items rendering) =
     (case map_of items (ustr ''answer'') of Some v \<Rightarrow> py_str v | None \<Rightarrow> rendering)"
| "arguments_content (ArgsOther v) = strip (py_str v)"

definition code_content :: "pystr \<Rightarrow> pystr" where
  "code_content c =
     (let c1 = strip (re_sub pat_end_tag [] (re_sub pat_open_fence [] c))
      in if startswith c1 (ustr ''```python'') then c1
         else ustr ''```python'' @ 10 # c1 @ 10 # fence)"

definition tool_title :: "pystr \<Rightarrow> pystr" where
  "tool_title n = [128736, 65039] @ ustr '' Used tool '' @ n"

definition logs_title :: pystr where
  "logs_title = 128221 # ustr '' Execution Logs''"

definition error_title :: pystr where
  "error_title = 128165 # ustr '' Error''"

definition logs_message :: "pystr \<Rightarrow> pystr \<Rightarrow> chat_message" where
  "logs_message pid log_content =
     \<lparr>role = ustr ''assistant'', content = Text log_content,
      metadata = \<lparr>title = Some logs_title, id_key = None,
                  parent_id = Some pid, status = Some (ustr ''done'')\<rparr>\<rparr>"

definition nested_error_message :: "pystr \<Rightarrow> pyobj \<Rightarrow> chat_message" where
  "nested_error_message pid e =
     \<lparr>role = ustr ''assistant'', content = Text (py_str e),
      metadata = \<lparr>title = Some error_title, id_key = None,
                  parent_id = Some pid, status = Some (ustr ''done'')\<rparr>\<rparr>"

definition standalone_error_message :: "pyobj \<Rightarrow> chat_message" where
  "standalone_error_message e =
     \<lparr>role = ustr ''assistant'', content = Text (py_str e),
      metadata = \<lparr>title = Some error_title, id_key = None,
                  parent_id = None, status = None\<rparr>\<rparr>"

definition observations_part :: "action_step \<Rightarrow> pystr \<Rightarrow> gen \<Rightarrow> gen" where
  "observations_part st pid g =
     (case observations st of
        Attr (Some obs) \<Rightarrow>
          if strip obs \<noteq> []
          then (let log_content = strip obs
                in if log_content \<noteq> []
                   then yield_new (logs_message pid (re_sub pat_exec_logs [] log_content)) g
                   else g)
          else g
      | _ \<Rightarrow> g)"

definition nested_error_part :: "action_step \<Rightarrow> pystr \<Rightarrow> gen \<Rightarrow> gen" where
  "nested_error_part st pid g =
     (case error st of
        Attr (Some e) \<Rightarrow> yield_new (nested_error_message pid e) g
      | _ \<Rightarrow> g)"

definition standalone_error_part :: "action_step \<Rightarrow> gen \<Rightarrow> gen" where
  "standalone_error_part st g =
     (case error st of
        Attr (Some e) \<Rightarrow> yield_new (standalone_error_message e) g
      | _ \<Rightarrow> g)"

text \<open>
  The parent message of a step with tool calls, as it is built from the first call and
  the number of calls.
\<close>

definition parent_id_of :: "tool_call list \<Rightarrow> pystr" where
  "parent_id_of tcs = ustr ''call_'' @ str_int (int (length tcs))"

definition parent_content :: "tool_call \<Rightarrow> pystr" where
  "parent_content first_tool_call =
     (let used_code = (name first_tool_call = ustr ''python_interpreter'');
          c = arguments_content (arguments first_tool_call)
      in if used_code then code_content c else c)"

definition parent_message :: "tool_call \<Rightarrow> pystr \<Rightarrow> chat_message" where
  "parent_message first_tool_call pid =
     \<lparr>role = ustr ''assistant'', content = Text (parent_content first_tool_call),
      metadata = \<lparr>title = Some (tool_title (name first_tool_call)),
                  id_key = Some pid, parent_id = None,
                  status = Some (ustr ''pending'')\<rparr>\<rparr>"

text \<open>
  The branch on \<open>tool_calls\<close>. \<open>step_log.tool_calls[0]\<close> raises \<open>IndexError\<close> on an
  empty list. The parent message is yielded and its address kept; after the nested
  messages its status is overwritten in the store, and nothing is yielded for that.
\<close>

definition tool_calls_part :: "action_step \<Rightarrow> gen \<Rightarrow> gen \<times> exn option" where
  "tool_calls_part st g =
     (case tool_calls st of
        Attr (Some tcs) \<Rightarrow>
          (case tcs of
             [] \<Rightarrow> (g, Some IndexError)
           | first_tool_call # _ \<Rightarrow>
               (let pid = parent_id_of tcs;
                    parent_message_tool = length (store g);
                    g1 = yield_new (parent_message first_tool_call pid) g;
                    g2 = observations_part st pid g1;
                    g3 = nested_error_part st pid g2
                in (set_status parent_message_tool (ustr ''done'') g3, None)))
      | _ \<Rightarrow> (standalone_error_part st g, None))"

text \<open>
  The footnote. The format \<open>:,\<close> raises \<open>TypeError\<close> on \<open>None\<close>, and so does
  \<open>step_footnote += step_duration\<close> when \<open>step_duration\<close> is \<open>None\<close>, which it is
  whenever the duration is falsy.
\<close>

definition token_str :: "action_step \<Rightarrow> exn + pystr" where
  "token_str st =
     (case input_token_count st of
        NoAttr \<Rightarrow> Inr []
      | Attr i \<Rightarrow>
          (case output_token_count st of
             NoAttr \<Rightarrow> Inr []
           | Attr ou \<Rightarrow>
               (case i of
                  None \<Rightarrow> Inl TypeError
                | Some ni \<Rightarrow>
                    (case ou of
                       None \<Rightarrow> Inl TypeError
                     | Some no \<Rightarrow>
                         Inr (ustr '' | Input-tokens:'' @ fmt_thousands ni @
                              ustr '' | Output-tokens:'' @ fmt_thousands no)))))"

definition step_duration :: "pyfloat option \<Rightarrow> pystr option" where
  "step_duration d =
     (case d of
        None \<Rightarrow> None
      | Some x \<Rightarrow> if float_truthy x then Some (ustr '' | Duration: '' @ str_round2 x) else None)"

definition duration_str :: "action_step \<Rightarrow> exn + pystr" where
  "duration_str st =
     (case duration st of
        NoAttr \<Rightarrow> Inr []
      | Attr d \<Rightarrow> (case step_duration d of None \<Rightarrow> Inl TypeError | Some s \<Rightarrow> Inr s))"

definition span_open :: pystr where
  "span_open = ustr ''<span style=\"color: #bbbbc2; font-size: 12px;\">''"

definition span_close :: pystr where
  "span_close = ustr ''</span> ''"

definition footnote_part :: "action_step \<Rightarrow> gen \<Rightarrow> gen \<times> exn option" where
  "footnote_part st g =
     (case token_str st of
        Inl e \<Rightarrow> (g, Some e)
      | Inr t \<Rightarrow>
          (case duration_str st of
             Inl e \<Rightarrow> (g, Some e)
           | Inr d \<Rightarrow>
               (yield_new (assistant (ustr ''-----''))
                  (yield_new (assistant (span_open @ step_label st @ t @ d @ span_close)) g),
                None)))"

text \<open>
  The whole generator, started in state \<open>g\<close>: the state it leaves behind and the
  exception that ended it, if one did. Messages yielded before an exception stay
  yielded.
\<close>

definition pull_messages_from_step :: "memory_step \<Rightarrow> gen \<Rightarrow> gen \<times> exn option" where
  "pull_messages_from_step step_log g =
     (case step_log of
        ActionStep st \<Rightarrow>
          (let g1 = yield_new (assistant (ustr ''**'' @ step_label st @ ustr ''**'')) g;
               g2 = model_output_part st g1
           in case tool_calls_part st g2 of
                (g3, Some e) \<Rightarrow> (g3, Some e)
              | (g3, None) \<Rightarrow> footnote_part st g3)
      | OtherStep _ \<Rightarrow> (g, None))"

section \<open>stream_to_gradio\<close>

text \<open>
  What \<open>handle_agent_output_types\<close> returns: one of the three agent types, given by
  the text of its \<open>to_string()\<close>, or any other value, given by the text of its
  \<open>str()\<close>.
\<close>

datatype agent_type = AgentText pystr | AgentImage pystr | AgentAudio pystr | OtherValue pystr

fun final_answer_message :: "agent_type \<Rightarrow> chat_message" where
  "final_answer_message (AgentText t) =
     assistant (ustr ''**Final answer:**'' @ 10 # t @ [10])"
| "final_answer_message (AgentImage p) =
     \<lparr>role = ustr ''assistant'', content = FileRef p (ustr ''image/png''),
      metadata = no_metadata\<rparr>"
| "final_answer_message (AgentAudio p) =
     \<lparr>role = ustr ''assistant'', content = FileRef p (ustr ''audio/wav''),
      metadata = no_metadata\<rparr>"
| "final_answer_message (OtherValue v) =
     assistant (ustr ''**Final answer:** '' @ v)"

text \<open>
  The model of the agent, as far as the source reads it, and the state of the running
  streamer: its two totals, the loop variable \<open>step_log\<close> (\<open>None\<close> while it is
  unbound) and the messages it has yielded. The run of the agent is the list of the
  steps it yields, each with the model as it stands when the step arrives.
\<close>

record model =
  last_input_token_count :: "int option attr"
  last_output_token_count :: "int option attr"

record stream_state =
  total_input_tokens :: int
  total_output_tokens :: int
  step_log :: "memory_step option"
  out :: gen

definition stream_init :: stream_state where
  "stream_init =
     \<lparr>total_input_tokens = 0, total_output_tokens = 0, step_log = None, out = gen_empty\<rparr>"

fun set_token_counts :: "int option \<Rightarrow> int option \<Rightarrow> memory_step \<Rightarrow> memory_step" where
  "set_token_counts i ou (ActionStep st) =
     ActionStep (st\<lparr>input_token_count := Attr i, output_token_count := Attr ou\<rparr>)"
| "set_token_counts i ou (OtherStep v) = OtherStep v"

text \<open>
  The token bookkeeping of one iteration. Adding \<open>None\<close> to a total raises
  \<open>TypeError\<close>; only the first attribute is tested with \<open>hasattr\<close>, so a model with
  the first and without the second raises \<open>AttributeError\<close>.
\<close>

definition track_tokens ::
  "model \<Rightarrow> memory_step \<Rightarrow> stream_state \<Rightarrow> exn + (stream_state \<times> memory_step)" where
  "track_tokens m step s =
     (case last_input_token_count m of
        NoAttr \<Rightarrow> Inr (s\<lparr>step_log := Some step\<rparr>, step)
      | Attr None \<Rightarrow> Inl TypeError
      | Attr (Some i) \<Rightarrow>
          (case last_output_token_count m of
             NoAttr \<Rightarrow> Inl AttributeError
           | Attr None \<Rightarrow> Inl TypeError
           | Attr (Some ou) \<Rightarrow>
               (let step' = set_token_counts (Some i) (Some ou) step
                in Inr (s\<lparr>total_input_tokens := total_input_tokens s + i,
                           total_output_tokens := total_output_tokens s + ou,
                           step_log := Some step'\<rparr>, step'))))"

fun stream_loop :: "(model \<times> memory_step) list \<Rightarrow> stream_state \<Rightarrow> stream_state \<times> exn option" where
  "stream_loop [] s = (s, None)"
| "stream_loop ((m, step) # rest) s =
     (case track_tokens m step s of
        Inl e \<Rightarrow> (s\<lparr>step_log := Some step\<rparr>, Some e)
      | Inr (s1, step') \<Rightarrow>
          (case pull_messages_from_step step' (out s1) of
             (g, Some e) \<Rightarrow> (s1\<lparr>out := g\<rparr>, Some e)
           | (g, None) \<Rightarrow> stream_loop rest (s1\<lparr>out := g\<rparr>)))"

text \<open>
  The whole streamer. \<open>gradio_available\<close> is the answer of
  \<open>_is_package_available("gradio")\<close> and \<open>handle_agent_output_types\<close> the function
  of that name, which the repository imports. After the loop, reading \<open>step_log\<close>
  raises \<open>UnboundLocalError\<close> when the loop never bound it.
\<close>

definition stream_to_gradio ::
  "bool \<Rightarrow> (memory_step \<Rightarrow> agent_type) \<Rightarrow> (model \<times> memory_step) list \<Rightarrow>
   stream_state \<times> exn option" where
  "stream_to_gradio gradio_available handle_agent_output_types run =
     (if \<not> gradio_available then (stream_init, Some ModuleNotFoundError)
      else (case stream_loop run stream_init of
              (s, Some e) \<Rightarrow> (s, Some e)
            | (s, None) \<Rightarrow>
                (case step_log s of
                   None \<Rightarrow> (s, Some UnboundLocalError)
                 | Some final_answer \<Rightarrow>
                     (s\<lparr>out := yield_new (final_answer_message
                                            (handle_agent_output_types final_answer)) (out s)\<rparr>,
                      None))))"

section \<open>Notions used in the statements\<close>

text \<open>
  \<open>numbered n ms\<close> pairs each element of \<open>ms\<close> with its address when the first one
  is stored at address \<open>n\<close>. \<open>emits g ms g'\<close>: from \<open>g\<close> to \<open>g'\<close> the generator has
  built the messages \<open>ms\<close> and yielded each of them once, in this order, and has changed
  no older object. \<open>is_child pid m\<close>: the message \<open>m\<close> is an execution-log or error
  message nested under the message with id \<open>pid\<close> and marked as done.
\<close>

definition numbered :: "nat \<Rightarrow> 'a list \<Rightarrow> (nat \<times> 'a) list" where
  "numbered n xs = zip [n..<n + length xs] xs"

definition emits :: "gen \<Rightarrow> chat_message list \<Rightarrow> gen \<Rightarrow> bool" where
  "emits g ms g' \<longleftrightarrow>
     store g' = store g @ ms \<and> yielded g' = yielded g @ numbered (length (store g)) ms"

definition is_child :: "pystr \<Rightarrow> chat_message \<Rightarrow> bool" where
  "is_child pid m \<longleftrightarrow>
     parent_id (metadata m) = Some pid \<and> status (metadata m) = Some (ustr ''done'') \<and>
     id_key (metadata m) = None \<and>
     (title (metadata m) = Some logs_title \<or> title (metadata m) = Some error_title)"

section \<open>Example inputs\<close>

text \<open>
  \<open>bare_step\<close> is an action step as the agent leaves it when nothing but the step
  number and the duration (1.5 seconds) is set; \<open>metered_step\<close> is the same step with
  the token counts 1200 and 5 and the duration 1.236. \<open>search_call\<close> and
  \<open>code_call\<close> are two tool calls, and \<open>counting_model\<close> is a model that reports
  the token counts of its last call.
\<close>

definition bare_step :: action_step where
  "bare_step =
     \<lparr>step_number = Some 1, model_output = Attr None, tool_calls = Attr None,
      observations = Attr None, error = Attr None, input_token_count = NoAttr,
      output_token_count = NoAttr, duration = Attr (Some (Dyadic 3 (- 1)))\<rparr>"

definition search_call :: tool_call where
  "search_call = \<lparr>name = ustr ''web_search'', arguments = ArgsOther (PyStr (ustr ''weather''))\<rparr>"

definition code_call :: tool_call where
  "code_call =
     \<lparr>name = ustr ''python_interpreter'',
      arguments = ArgsDict [(ustr ''answer'', PyStr (ustr ''print(1)''))]
                    (ustr ''{'answer': 'print(1)'}'')\<rparr>"

definition metered_step :: action_step where
  "metered_step =
     bare_step\<lparr>input_token_count := Attr (Some 1200), output_token_count := Attr (Some 5),
                duration := Attr (Some (Dyadic 5566449139429933 (- 52)))\<rparr>"

definition counting_model :: model where
  "counting_model =
     \<lparr>last_input_token_count = Attr (Some 1200), last_output_token_count = Attr (Some 5)\<rparr>"

section \<open>Evaluation rules\<close>

lemmas text_defs = ustr_def is_space_def strip_def startswith_def fence_def end_code_def re_sub_def
lemmas pat_defs = pat_fence_end_def pat_end_fence_def pat_fence_nl_end_def pat_open_fence_def
  pat_end_tag_def pat_exec_logs_def

lemma digits_small: "n < 10 \<Longrightarrow> digits n = [48 + n]"
  by (simp add: digits.simps)

lemma digits_big: "\<not> n < 10 \<Longrightarrow> digits n = digits (n div 10) @ [48 + n mod 10]"
  by (subst digits.simps) simp

lemma group3_small: "length ds \<le> 3 \<Longrightarrow> group3 ds = ds"
  by (simp add: group3.simps)

lemma group3_big:
  "\<not> length ds \<le> 3 \<Longrightarrow>
   group3 ds = group3 (take (length ds - 3) ds) @ 44 # drop (length ds - 3) ds"
  by (subst group3.simps) simp

lemmas num_defs = str_int_def fmt_thousands_def digits_small digits_big group3_small group3_big

lemmas part_defs = pull_messages_from_step_def model_output_part_def tool_calls_part_def
  observations_part_def nested_error_part_def standalone_error_part_def footnote_part_def
  token_str_def duration_str_def step_duration_def step_label_def parent_id_of_def
  yield_new_def set_status_def messages_def gen_empty_def Let_def str_round2_def round_half_even_def

section \<open>Matches are never empty\<close>

text \<open>
  A match leaves behind at most what it started from, less the literals of the pattern;
  so each of the six patterns consumes at least one code point, and the branch of
  \<open>re_sub_from\<close> for an empty match is never taken for them.
\<close>

lemma rmatch_width:
  "rmatch b p s = Some t \<Longrightarrow>
   length t + sum_list (map (\<lambda>a. case a of Lit l \<Rightarrow> length l | _ \<Rightarrow> 0) p) \<le> length s"
proof (induction b p s arbitrary: t rule: rmatch.induct)
  case (1 b s)
  then show ?case by simp
next
  case (2 b r s)
  from "2.prems" have "b" and "rmatch b r s = Some t"
    by (simp_all split: if_splits)
  from "2.IH" [OF this] show ?case by simp
next
  case (3 b l r s)
  from "3.prems" have sw: "startswith s l" and m: "rmatch (b \<and> l = []) r (drop (length l) s) = Some t"
    by (simp_all split: if_splits)
  from sw have "length (take (length l) s) = length l"
    by (simp only: startswith_def)
  then have "length l \<le> length s"
    by simp
  with "3.IH" [OF sw m] show ?case by simp
next
  case (4 b r)
  from "4.prems" have "rmatch b r [] = Some t" by simp
  from "4.IH" [OF this] show ?case by simp
next
  case (5 b r c cs)
  show ?case
  proof (cases "is_space c")
    case True
    show ?thesis
    proof (cases "rmatch False (SpaceStar # r) cs")
      case None
      with True "5.prems" have "rmatch b r (c # cs) = Some t" by simp
      from "5.IH"(2) [OF True None this] show ?thesis by simp
    next
      case (Some u)
      with True "5.prems" have "u = t" by simp
      with Some "5.IH"(1) [OF True] have
        "length t + sum_list (map (\<lambda>a. case a of Lit l \<Rightarrow> length l | _ \<Rightarrow> 0) (SpaceStar # r)) \<le> length cs"
        by simp
      then show ?thesis by simp
    qed
  next
    case False
    with "5.prems" have "rmatch b r (c # cs) = Some t" by simp
    from "5.IH"(3) [OF False this] show ?thesis by simp
  qed
next
  case (6 b r)
  from "6.prems" have "rmatch b r [] = Some t" by simp
  from "6.IH" [OF this] show ?case by simp
next
  case (7 b r c cs)
  show ?case
  proof (cases "rmatch b r (c # cs)")
    case (Some u)
    with "7.prems" have "u = t" by simp
    with Some "7.IH"(1) show ?thesis by simp
  next
    case None
    with "7.prems" have c: "c \<noteq> 10" and m: "rmatch False (AnyLazy # r) cs = Some t"
      by (simp_all split: if_splits)
    from "7.IH"(2) [OF None c m] show ?thesis by simp
  qed
qed

lemma rmatch_patterns_consume:
  assumes "p \<in> {pat_fence_end, pat_end_fence, pat_fence_nl_end, pat_open_fence, pat_end_tag, pat_exec_logs}"
    and "rmatch b p s = Some t"
  shows "length t < length s"
  using assms(1) rmatch_width [OF assms(2)]
  by (auto simp: pat_defs fence_def end_code_def ustr_def)

section \<open>What each part of the extractor yields\<close>

lemma messages_yield_new: "messages (yield_new m g) = messages g @ [m]"
  by (simp add: messages_def yield_new_def)

lemma zip_upt_append:
  "zip [n..<n + (length xs + length ys)] (xs @ ys) =
   zip [n..<n + length xs] xs @ zip [n + length xs..<n + length xs + length ys] ys"
proof -
  have "[n..<n + length xs + length ys] = [n..<n + length xs] @ [n + length xs..<n + length xs + length ys]"
    by (rule upt_add_eq_append) simp
  then have "zip [n..<n + length xs + length ys] (xs @ ys) =
             zip ([n..<n + length xs] @ [n + length xs..<n + length xs + length ys]) (xs @ ys)"
    by (rule arg_cong)
  also have "\<dots> = zip [n..<n + length xs] xs @ zip [n + length xs..<n + length xs + length ys] ys"
    by (rule zip_append) simp
  finally show ?thesis by (simp only: add.assoc)
qed

lemma numbered_append: "numbered n (xs @ ys) = numbered n xs @ numbered (n + length xs) ys"
  unfolding numbered_def using zip_upt_append [of n xs ys] by simp

lemma map_snd_numbered: "map snd (numbered n xs) = xs"
  by (simp add: numbered_def)

lemma emits_refl: "emits g [] g"
  by (simp add: emits_def numbered_def)

lemma emits_yield_new: "emits g [m] (yield_new m g)"
  by (simp add: emits_def yield_new_def numbered_def)

lemma emits_trans:
  assumes "emits g ms g1" and "emits g1 ms' g2"
  shows "emits g (ms @ ms') g2"
  using assms by (simp add: emits_def numbered_append)

lemma messages_emits: "emits g ms g' \<Longrightarrow> messages g' = messages g @ ms"
  by (simp add: emits_def messages_def map_snd_numbered)

lemma emits_model_output_part:
  "\<exists>ms. emits g ms (model_output_part st g) \<and> (\<forall>m\<in>set ms. metadata m = no_metadata)"
proof (cases "model_output st")
  case NoAttr
  then have "emits g [] (model_output_part st g)"
    by (simp add: model_output_part_def emits_refl)
  then show ?thesis by fastforce
next
  case (Attr v)
  show ?thesis
  proof (cases v)
    case None
    with Attr have "emits g [] (model_output_part st g)"
      by (simp add: model_output_part_def emits_refl)
    then show ?thesis by fastforce
  next
    case (Some mo)
    with Attr have "emits g [assistant (clean_model_output mo)] (model_output_part st g)"
      by (simp add: model_output_part_def emits_yield_new)
    moreover have "metadata (assistant (clean_model_output mo)) = no_metadata"
      by (simp add: assistant_def)
    ultimately show ?thesis by fastforce
  qed
qed

lemma emits_one_child:
  assumes "is_child pid m"
  shows "\<exists>ms. emits g ms (yield_new m g) \<and> (\<forall>k\<in>set ms. is_child pid k)"
proof -
  have "emits g [m] (yield_new m g)" by (rule emits_yield_new)
  moreover from assms have "\<forall>k\<in>set [m]. is_child pid k" by simp
  ultimately show ?thesis by blast
qed

lemma emits_no_child:
  "\<exists>ms. emits g ms g \<and> (\<forall>k\<in>set ms. is_child pid k)"
proof -
  have "emits g [] g" by (rule emits_refl)
  moreover have "\<forall>k\<in>set []. is_child pid k" by simp
  ultimately show ?thesis by blast
qed

lemma is_child_logs_message: "is_child pid (logs_message pid c)"
  by (simp add: is_child_def logs_message_def)

lemma is_child_nested_error_message: "is_child pid (nested_error_message pid e)"
  by (simp add: is_child_def nested_error_message_def)

lemma emits_observations_part:
  "\<exists>ms. emits g ms (observations_part st pid g) \<and> (\<forall>m\<in>set ms. is_child pid m)"
proof (cases "observations st")
  case NoAttr
  then have "observations_part st pid g = g" by (simp add: observations_part_def)
  then show ?thesis by (simp add: emits_no_child)
next
  case (Attr v)
  show ?thesis
  proof (cases v)
    case None
    with Attr have "observations_part st pid g = g" by (simp add: observations_part_def)
    then show ?thesis by (simp add: emits_no_child)
  next
    case (Some obs)
    show ?thesis
    proof (cases "strip obs = []")
      case True
      with Attr Some have "observations_part st pid g = g"
        by (simp add: observations_part_def)
      then show ?thesis by (simp add: emits_no_child)
    next
      case False
      with Attr Some have "observations_part st pid g =
          yield_new (logs_message pid (re_sub pat_exec_logs [] (strip obs))) g"
        by (simp add: observations_part_def Let_def)
      then show ?thesis
        by (simp add: emits_one_child is_child_logs_message)
    qed
  qed
qed

lemma emits_nested_error_part:
  "\<exists>ms. emits g ms (nested_error_part st pid g) \<and> (\<forall>m\<in>set ms. is_child pid m)"
proof (cases "error st")
  case NoAttr
  then have "nested_error_part st pid g = g" by (simp add: nested_error_part_def)
  then show ?thesis by (simp add: emits_no_child)
next
  case (Attr v)
  show ?thesis
  proof (cases v)
    case None
    with Attr have "nested_error_part st pid g = g" by (simp add: nested_error_part_def)
    then show ?thesis by (simp add: emits_no_child)
  next
    case (Some e)
    with Attr have "nested_error_part st pid g = yield_new (nested_error_message pid e) g"
      by (simp add: nested_error_part_def)
    then show ?thesis
      by (simp add: emits_one_child is_child_nested_error_message)
  qed
qed

lemma token_str_Inl: "token_str st = Inl e \<Longrightarrow> e = TypeError"
  unfolding token_str_def
  by (cases "input_token_count st"; cases "output_token_count st") (auto split: option.split_asm)

lemma duration_str_Inl: "duration_str st = Inl e \<Longrightarrow> e = TypeError"
  unfolding duration_str_def
  by (cases "duration st") (auto split: option.split_asm)

lemma footnote_part_cases:
  "footnote_part st g = (g, Some TypeError) \<or>
   (\<exists>c. footnote_part st g =
      (yield_new (assistant (ustr ''-----'')) (yield_new (assistant c) g), None))"
proof (cases "token_str st")
  case (Inl e)
  from token_str_Inl [OF Inl] have "e = TypeError" .
  with Inl show ?thesis by (simp add: footnote_part_def)
next
  case t: (Inr t)
  show ?thesis
  proof (cases "duration_str st")
    case (Inl e)
    from duration_str_Inl [OF Inl] have "e = TypeError" .
    with t Inl show ?thesis by (simp add: footnote_part_def)
  next
    case (Inr d)
    with t have "footnote_part st g =
      (yield_new (assistant (ustr ''-----''))
         (yield_new (assistant (span_open @ step_label st @ t @ d @ span_close)) g), None)"
      by (simp add: footnote_part_def)
    then show ?thesis by blast
  qed
qed

lemma emits_footnote_part:
  "\<exists>ms. emits g ms (fst (footnote_part st g)) \<and> (\<forall>m\<in>set ms. metadata m = no_metadata)"
  using footnote_part_cases [of st g]
proof
  assume "footnote_part st g = (g, Some TypeError)"
  then have "emits g [] (fst (footnote_part st g))" by (simp add: emits_refl)
  then show ?thesis by fastforce
next
  assume "\<exists>c. footnote_part st g =
      (yield_new (assistant (ustr ''-----'')) (yield_new (assistant c) g), None)"
  then obtain c where c: "footnote_part st g =
      (yield_new (assistant (ustr ''-----'')) (yield_new (assistant c) g), None)" ..
  have "emits g ([assistant c] @ [assistant (ustr ''-----'')])
      (yield_new (assistant (ustr ''-----'')) (yield_new (assistant c) g))"
    by (rule emits_trans [OF emits_yield_new emits_yield_new])
  with c have "emits g [assistant c, assistant (ustr ''-----'')] (fst (footnote_part st g))"
    by simp
  moreover have "\<forall>m\<in>set [assistant c, assistant (ustr ''-----'')]. metadata m = no_metadata"
    by (simp add: assistant_def)
  ultimately show ?thesis by blast
qed

lemma tool_calls_part_cons:
  assumes "tool_calls st = Attr (Some (tc # tcs))"
  shows "tool_calls_part st g =
     (set_status (length (store g)) (ustr ''done'')
        (nested_error_part st (parent_id_of (tc # tcs))
          (observations_part st (parent_id_of (tc # tcs))
            (yield_new (parent_message tc (parent_id_of (tc # tcs))) g))), None)"
  using assms by (simp add: tool_calls_part_def Let_def)

lemma set_status_parent:
  assumes "store g' = pre @ pm # kids"
  shows "store (set_status (length pre) v g') =
           pre @ pm\<lparr>metadata := (metadata pm)\<lparr>status := Some v\<rparr>\<rparr> # kids"
    and "yielded (set_status (length pre) v g') = yielded g'"
  using assms by (simp_all add: set_status_def)

lemma tool_calls_part_structure:
  assumes "tool_calls st = Attr (Some (tc # tcs))"
  shows "\<exists>kids.
     snd (tool_calls_part st g) = None \<and>
     store (fst (tool_calls_part st g)) =
       store g @ (parent_message tc (parent_id_of (tc # tcs)))
                   \<lparr>metadata := (metadata (parent_message tc (parent_id_of (tc # tcs))))
                      \<lparr>status := Some (ustr ''done'')\<rparr>\<rparr> # kids \<and>
     yielded (fst (tool_calls_part st g)) =
       yielded g @ numbered (length (store g)) (parent_message tc (parent_id_of (tc # tcs)) # kids) \<and>
     (\<forall>m\<in>set kids. is_child (parent_id_of (tc # tcs)) m)"
proof -
  let ?pid = "parent_id_of (tc # tcs)"
  let ?pm = "parent_message tc ?pid"
  let ?g1 = "yield_new ?pm g"
  let ?g2 = "observations_part st ?pid ?g1"
  let ?g3 = "nested_error_part st ?pid ?g2"
  obtain k1 where k1: "emits ?g1 k1 ?g2" "\<forall>m\<in>set k1. is_child ?pid m"
    using emits_observations_part [of ?g1 st ?pid] by blast
  obtain k2 where k2: "emits ?g2 k2 ?g3" "\<forall>m\<in>set k2. is_child ?pid m"
    using emits_nested_error_part [of ?g2 st ?pid] by blast
  have "emits g ([?pm] @ (k1 @ k2)) ?g3"
    by (rule emits_trans [OF emits_yield_new emits_trans [OF k1(1) k2(1)]])
  then have st3: "store ?g3 = store g @ ?pm # (k1 @ k2)"
    and y3: "yielded ?g3 = yielded g @ numbered (length (store g)) (?pm # (k1 @ k2))"
    by (simp_all add: emits_def)
  from tool_calls_part_cons [OF assms]
  have t: "tool_calls_part st g = (set_status (length (store g)) (ustr ''done'') ?g3, None)" .
  from k1(2) k2(2) have "\<forall>m\<in>set (k1 @ k2). is_child ?pid m" by auto
  with t set_status_parent [OF st3] y3 show ?thesis
    by (intro exI [of _ "k1 @ k2"]) simp
qed


lemma pull_action_step_ok:
  assumes "snd (tool_calls_part st (model_output_part st
             (yield_new (assistant (ustr ''**'' @ step_label st @ ustr ''**'')) g))) = None"
  shows "pull_messages_from_step (ActionStep st) g =
         footnote_part st (fst (tool_calls_part st (model_output_part st
             (yield_new (assistant (ustr ''**'' @ step_label st @ ustr ''**'')) g))))"
  using assms
  by (cases "tool_calls_part st (model_output_part st
             (yield_new (assistant (ustr ''**'' @ step_label st @ ustr ''**'')) g))")
     (simp add: pull_messages_from_step_def Let_def)

lemma pull_action_step_raise:
  assumes "snd (tool_calls_part st (model_output_part st
             (yield_new (assistant (ustr ''**'' @ step_label st @ ustr ''**'')) g))) = Some e"
  shows "pull_messages_from_step (ActionStep st) g =
         (fst (tool_calls_part st (model_output_part st
             (yield_new (assistant (ustr ''**'' @ step_label st @ ustr ''**'')) g))), Some e)"
  using assms
  by (cases "tool_calls_part st (model_output_part st
             (yield_new (assistant (ustr ''**'' @ step_label st @ ustr ''**'')) g))")
     (simp add: pull_messages_from_step_def Let_def)

lemma pull_structure:
  assumes "tool_calls st = Attr (Some (tc # tcs))"
  shows "\<exists>pre kids post.
     store (fst (pull_messages_from_step (ActionStep st) g)) =
       store g @ pre @ (parent_message tc (parent_id_of (tc # tcs)))
                   \<lparr>metadata := (metadata (parent_message tc (parent_id_of (tc # tcs))))
                      \<lparr>status := Some (ustr ''done'')\<rparr>\<rparr> # kids @ post \<and>
     yielded (fst (pull_messages_from_step (ActionStep st) g)) =
       yielded g @ numbered (length (store g))
                     (pre @ parent_message tc (parent_id_of (tc # tcs)) # kids @ post) \<and>
     (\<forall>m\<in>set (pre @ post). metadata m = no_metadata) \<and>
     (\<forall>m\<in>set kids. is_child (parent_id_of (tc # tcs)) m)"
proof -
  let ?pid = "parent_id_of (tc # tcs)"
  let ?pm = "parent_message tc ?pid"
  let ?pm' = "?pm\<lparr>metadata := (metadata ?pm)\<lparr>status := Some (ustr ''done'')\<rparr>\<rparr>"
  let ?hdr = "assistant (ustr ''**'' @ step_label st @ ustr ''**'')"
  let ?g1 = "yield_new ?hdr g"
  let ?g2 = "model_output_part st ?g1"
  let ?g3 = "fst (tool_calls_part st ?g2)"
  let ?g4 = "fst (footnote_part st ?g3)"
  obtain ms1 where ms1: "emits ?g1 ms1 ?g2" "\<forall>m\<in>set ms1. metadata m = no_metadata"
    using emits_model_output_part [of ?g1 st] by blast
  have "emits g ([?hdr] @ ms1) ?g2"
    by (rule emits_trans [OF emits_yield_new ms1(1)])
  then have s2: "store ?g2 = store g @ ?hdr # ms1"
    and y2: "yielded ?g2 = yielded g @ numbered (length (store g)) (?hdr # ms1)"
    by (simp_all add: emits_def)
  obtain kids where ok: "snd (tool_calls_part st ?g2) = None"
    and s3: "store ?g3 = store ?g2 @ ?pm' # kids"
    and y3: "yielded ?g3 = yielded ?g2 @ numbered (length (store ?g2)) (?pm # kids)"
    and kids: "\<forall>m\<in>set kids. is_child ?pid m"
    using tool_calls_part_structure [OF assms, of ?g2] by blast
  obtain post where post: "emits ?g3 post ?g4" "\<forall>m\<in>set post. metadata m = no_metadata"
    using emits_footnote_part [of ?g3 st] by blast
  then have s4: "store ?g4 = store ?g3 @ post"
    and y4: "yielded ?g4 = yielded ?g3 @ numbered (length (store ?g3)) post"
    by (simp_all add: emits_def)
  have pull: "fst (pull_messages_from_step (ActionStep st) g) = ?g4"
    using pull_action_step_ok [OF ok] by simp
  have "store ?g4 = store g @ (?hdr # ms1) @ ?pm' # kids @ post"
    using s2 s3 s4 by simp
  moreover have "yielded ?g4 =
      yielded g @ numbered (length (store g)) ((?hdr # ms1) @ ?pm # kids @ post)"
  proof -
    have "numbered (length (store g)) ((?hdr # ms1) @ (?pm # kids) @ post) =
          numbered (length (store g)) (?hdr # ms1) @
          numbered (length (store g) + length (?hdr # ms1)) (?pm # kids) @
          numbered (length (store g) + length (?hdr # ms1) + length (?pm # kids)) post"
      by (simp only: numbered_append length_append add.assoc)
    moreover have "length (store ?g2) = length (store g) + length (?hdr # ms1)"
      using s2 by simp
    moreover have "length (store ?g3) = length (store g) + length (?hdr # ms1) + length (?pm # kids)"
      using s2 s3 by simp
    ultimately show ?thesis
      using y2 y3 y4 by simp
  qed
  moreover have "\<forall>m\<in>set ((?hdr # ms1) @ post). metadata m = no_metadata"
    using ms1(2) post(2) by (auto simp: assistant_def)
  ultimately show ?thesis
    using kids pull by (intro exI [of _ "?hdr # ms1"] exI [of _ kids] exI [of _ post]) simp
qed


lemma code_call_content:
  assumes "name tc = ustr ''python_interpreter''"
    and "arguments tc = ArgsDict [(ustr ''answer'', PyStr (ustr ''print(1)''))] r"
  shows "parent_content tc = ustr ''```python\<newline>print(1)\<newline>```''"
  using assms by (simp add: parent_content_def code_content_def text_defs pat_defs)

lemma tool_calls_part_no_raise:
  assumes "tool_calls st \<noteq> Attr (Some [])"
  shows "snd (tool_calls_part st g) = None"
proof (cases "tool_calls st")
  case NoAttr
  then show ?thesis by (simp add: tool_calls_part_def)
next
  case (Attr v)
  show ?thesis
  proof (cases v)
    case None
    with Attr show ?thesis by (simp add: tool_calls_part_def)
  next
    case (Some tcs)
    with Attr assms obtain tc rest where "tcs = tc # rest"
      by (cases tcs) auto
    with Attr Some show ?thesis by (simp add: tool_calls_part_def Let_def)
  qed
qed

lemma footnote_1200_5:
  assumes "input_token_count st = Attr (Some 1200)"
    and "output_token_count st = Attr (Some 5)"
    and "duration st = Attr (Some (Dyadic 5566449139429933 (- 52)))"
  shows "footnote_part st g =
     (yield_new (assistant (ustr ''-----''))
        (yield_new (assistant (span_open @ step_label st @
           ustr '' | Input-tokens:1,200 | Output-tokens:5 | Duration: 1.24'' @ span_close)) g),
      None)"
proof -
  have "token_str st = Inr (ustr '' | Input-tokens:1,200 | Output-tokens:5'')"
    using assms(1,2) by (simp add: token_str_def num_defs ustr_def)
  moreover have "str_round2 (Dyadic 5566449139429933 (- 52)) = ustr ''1.24''"
    by (simp add: str_round2_def round_half_even_def Let_def num_defs ustr_def)
  then have "duration_str st = Inr (ustr '' | Duration: 1.24'')"
    using assms(3) by (simp add: duration_str_def step_duration_def ustr_def)
  ultimately show ?thesis
    by (simp add: footnote_part_def ustr_def)
qed

lemma tool_calls_part_extends: "\<exists>ms. messages (fst (tool_calls_part st g)) = messages g @ ms"
proof (cases "tool_calls st")
  case NoAttr
  then have "fst (tool_calls_part st g) = standalone_error_part st g"
    by (simp add: tool_calls_part_def)
  then show ?thesis
    by (cases "error st"; simp add: standalone_error_part_def messages_yield_new split: option.split)
next
  case (Attr v)
  show ?thesis
  proof (cases v)
    case None
    with Attr have "fst (tool_calls_part st g) = standalone_error_part st g"
      by (simp add: tool_calls_part_def)
    then show ?thesis
      by (cases "error st"; simp add: standalone_error_part_def messages_yield_new split: option.split)
  next
    case (Some tcs)
    show ?thesis
    proof (cases tcs)
      case Nil
      with Attr Some show ?thesis by (simp add: tool_calls_part_def)
    next
      case (Cons tc rest)
      with Attr Some have "tool_calls st = Attr (Some (tc # rest))" by simp
      from tool_calls_part_structure [OF this, of g] show ?thesis
        unfolding messages_def by (metis map_append)
    qed
  qed
qed

lemma footnote_part_extends: "\<exists>ms. messages (fst (footnote_part st g)) = messages g @ ms"
  using emits_footnote_part [of g st] messages_emits by blast

lemma pull_extends:
  "\<exists>rest. messages (fst (pull_messages_from_step (ActionStep st) g)) =
     messages (model_output_part st
        (yield_new (assistant (ustr ''**'' @ step_label st @ ustr ''**'')) g)) @ rest"
proof -
  let ?g2 = "model_output_part st (yield_new (assistant (ustr ''**'' @ step_label st @ ustr ''**'')) g)"
  obtain ms where ms: "messages (fst (tool_calls_part st ?g2)) = messages ?g2 @ ms"
    using tool_calls_part_extends by blast
  show ?thesis
  proof (cases "snd (tool_calls_part st ?g2)")
    case None
    from pull_action_step_ok [OF None] footnote_part_extends [of st "fst (tool_calls_part st ?g2)"] ms
    show ?thesis by auto
  next
    case (Some e)
    from pull_action_step_raise [OF Some] ms show ?thesis by simp
  qed
qed

section \<open>The patterns on the end-of-code markers\<close>

lemma rmatch_spaces_then_lit:
  assumes "\<forall>c\<in>set ws. is_space c" and "l \<noteq> []" and "\<not> is_space (hd l)"
  shows "rmatch b [SpaceStar, Lit l] (ws @ l) = Some []"
  using assms(1)
proof (induction ws arbitrary: b)
  case Nil
  from assms(2) obtain c cs where l: "l = c # cs" by (cases l) auto
  with assms(3) have "\<not> is_space c" by simp
  then have "rmatch b [SpaceStar, Lit l] (c # cs) = rmatch b [Lit l] (c # cs)"
    by simp
  also have "\<dots> = Some []"
    unfolding l by (simp add: startswith_def)
  finally show ?case by (simp add: l)
next
  case (Cons c ws)
  then have "rmatch False [SpaceStar, Lit l] (ws @ l) = Some []" by simp
  with Cons.prems show ?case by simp
qed

lemma re_sub_from_copy:
  "rmatch b p (c # cs) = None \<Longrightarrow> re_sub_from b p repl (c # cs) = c # re_sub_from False p repl cs"
  by simp

lemma re_sub_from_whole:
  "rmatch b p (c # cs) = Some [] \<Longrightarrow> rmatch False p [] = None \<Longrightarrow>
   re_sub_from b p repl (c # cs) = repl"
  by simp

lemma hd_end_code: "end_code \<noteq> [] \<and> \<not> is_space (hd end_code)"
  by (simp add: end_code_def ustr_def is_space_def)

lemma hd_fence: "fence \<noteq> [] \<and> \<not> is_space (hd fence)"
  by (simp add: fence_def ustr_def is_space_def)

lemma sub_fence_spaces_end:
  assumes "\<forall>c\<in>set ws. is_space c"
  shows "re_sub pat_fence_end fence (ustr ''x\<newline>'' @ fence @ ws @ end_code) = ustr ''x\<newline>'' @ fence"
proof -
  have m: "rmatch False [SpaceStar, Lit end_code] (ws @ end_code) = Some []"
    using assms hd_end_code by (simp add: rmatch_spaces_then_lit)
  have "rmatch False pat_fence_end (fence @ ws @ end_code) = Some []"
    using m by (simp add: pat_fence_end_def startswith_def)
  then have "rmatch False pat_fence_end (96 # 96 # 96 # ws @ end_code) = Some []"
    by (simp add: fence_def ustr_def)
  moreover have "rmatch False pat_fence_end [] = None"
    by (simp add: pat_fence_end_def startswith_def fence_def ustr_def)
  ultimately have "re_sub_from False pat_fence_end fence (96 # 96 # 96 # ws @ end_code) = fence"
    by (rule re_sub_from_whole)
  moreover have "rmatch True pat_fence_end (120 # 10 # 96 # 96 # 96 # ws @ end_code) = None"
    by (simp add: pat_fence_end_def startswith_def fence_def ustr_def)
  moreover have "rmatch False pat_fence_end (10 # 96 # 96 # 96 # ws @ end_code) = None"
    by (simp add: pat_fence_end_def startswith_def fence_def ustr_def)
  ultimately have "re_sub_from True pat_fence_end fence (120 # 10 # 96 # 96 # 96 # ws @ end_code) =
      120 # 10 # fence"
    by (simp add: re_sub_from_copy del: re_sub_from.simps)
  then show ?thesis
    by (simp add: re_sub_def ustr_def fence_def)
qed


lemma space_not_backtick: "is_space c \<Longrightarrow> c \<noteq> 96"
  by (auto simp: is_space_def)

lemma no_fence_end_at: "c \<noteq> 96 \<Longrightarrow> rmatch b pat_fence_end (c # cs) = None"
  by (simp add: pat_fence_end_def startswith_def fence_def ustr_def)

lemma skip_non_backticks:
  "\<forall>c\<in>set xs. c \<noteq> 96 \<Longrightarrow>
   re_sub_from False pat_fence_end repl (xs @ s) = xs @ re_sub_from False pat_fence_end repl s"
  by (induction xs) (simp_all add: no_fence_end_at del: re_sub_from.simps add: re_sub_from_copy)

lemma sub_fence_end_unchanged:
  assumes "\<forall>c\<in>set ws. is_space c"
  shows "re_sub pat_fence_end fence (ustr ''x\<newline>'' @ end_code @ ws @ fence) =
         ustr ''x\<newline>'' @ end_code @ ws @ fence"
proof -
  have "\<forall>c\<in>set (10 # end_code @ ws). c \<noteq> 96"
    using assms space_not_backtick by (auto simp: end_code_def ustr_def)
  then have "re_sub_from False pat_fence_end fence ((10 # end_code @ ws) @ fence) =
      (10 # end_code @ ws) @ re_sub_from False pat_fence_end fence fence"
    by (rule skip_non_backticks)
  moreover have "re_sub_from False pat_fence_end fence fence = fence"
    by (simp add: pat_fence_end_def startswith_def fence_def end_code_def ustr_def)
  moreover have "re_sub_from True pat_fence_end fence (120 # (10 # end_code @ ws) @ fence) =
      120 # re_sub_from False pat_fence_end fence ((10 # end_code @ ws) @ fence)"
    by (rule re_sub_from_copy) (simp add: no_fence_end_at)
  ultimately show ?thesis
    by (simp add: re_sub_def ustr_def)
qed

lemma sub_end_spaces_fence:
  assumes "\<forall>c\<in>set ws. is_space c"
  shows "re_sub pat_end_fence fence (ustr ''x\<newline>'' @ end_code @ ws @ fence) = ustr ''x\<newline>'' @ fence"
proof -
  obtain c cs where ec: "end_code = c # cs"
    using hd_end_code by (cases end_code) auto
  have m: "rmatch False [SpaceStar, Lit fence] (ws @ fence) = Some []"
    using assms hd_fence by (simp add: rmatch_spaces_then_lit)
  have "rmatch False pat_end_fence (end_code @ ws @ fence) = Some []"
    using m by (simp add: pat_end_fence_def startswith_def)
  then have "rmatch False pat_end_fence (c # cs @ ws @ fence) = Some []"
    by (simp add: ec)
  moreover have "rmatch False pat_end_fence [] = None"
    by (simp add: pat_end_fence_def startswith_def end_code_def ustr_def)
  ultimately have "re_sub_from False pat_end_fence fence (c # cs @ ws @ fence) = fence"
    by (rule re_sub_from_whole)
  then have e: "re_sub_from False pat_end_fence fence (end_code @ ws @ fence) = fence"
    by (simp add: ec)
  have "rmatch True pat_end_fence (120 # 10 # end_code @ ws @ fence) = None"
    by (simp add: pat_end_fence_def startswith_def end_code_def ustr_def)
  moreover have "rmatch False pat_end_fence (10 # end_code @ ws @ fence) = None"
    by (simp add: pat_end_fence_def startswith_def end_code_def ustr_def)
  ultimately have "re_sub_from True pat_end_fence fence (120 # 10 # end_code @ ws @ fence) =
      120 # 10 # fence"
    using e by (simp add: re_sub_from_copy del: re_sub_from.simps)
  then show ?thesis
    by (simp add: re_sub_def ustr_def)
qed

lemma x_fence_settled:
  "re_sub pat_end_fence fence (ustr ''x\<newline>'' @ fence) = ustr ''x\<newline>'' @ fence"
  "re_sub pat_fence_nl_end fence (ustr ''x\<newline>'' @ fence) = ustr ''x\<newline>'' @ fence"
  "strip (ustr ''x\<newline>'' @ fence) = ustr ''x\<newline>```''"
  by (simp_all add: text_defs pat_defs)

lemma clean_fence_spaces_end:
  assumes "\<forall>c\<in>set ws. is_space c"
    and "strip mo = ustr ''x\<newline>```'' @ ws @ ustr ''<end_code>''"
  shows "clean_model_output mo = ustr ''x\<newline>```''"
proof -
  from assms(2) have "strip mo = ustr ''x\<newline>'' @ fence @ ws @ end_code"
    by (simp add: ustr_def fence_def end_code_def)
  with sub_fence_spaces_end [OF assms(1)] show ?thesis
    by (simp add: clean_model_output_def x_fence_settled)
qed

lemma clean_end_spaces_fence:
  assumes "\<forall>c\<in>set ws. is_space c"
    and "strip mo = ustr ''x\<newline><end_code>'' @ ws @ ustr ''```''"
  shows "clean_model_output mo = ustr ''x\<newline>```''"
proof -
  from assms(2) have "strip mo = ustr ''x\<newline>'' @ end_code @ ws @ fence"
    by (simp add: ustr_def fence_def end_code_def)
  with sub_fence_end_unchanged [OF assms(1)] sub_end_spaces_fence [OF assms(1)] show ?thesis
    by (simp add: clean_model_output_def x_fence_settled)
qed


section \<open>Execution logs\<close>

text \<open>
  C1. The claim: under a tool call, the execution-log child message is yielded exactly
  when something is left of the trimmed observations after the prefix
  \<open>Execution logs:\<close> and the whitespace behind it are removed; for the observations
  \<open>Execution logs:\<close>, three spaces, a newline, two spaces, \<open>done\<close> and a newline its
  content is \<open>done\<close>, and for \<open>Execution logs:\<close> and a newline none is yielded.
  What the source does: the second example is as claimed, but for the third the test
  for content comes before the removal of the prefix, so a child message with empty
  content is yielded; the run of such a step yields it between the parent message and
  the footnote.
\<close>

theorem logs_child_with_empty_content:
  "observations_part
     (st\<lparr>observations := Attr (Some (ustr ''Execution logs:   \<newline>  done\<newline>''))\<rparr>) pid g =
     yield_new (logs_message pid (ustr ''done'')) g
   \<and> observations_part (st\<lparr>observations := Attr (Some (ustr ''Execution logs:\<newline>''))\<rparr>) pid g =
     yield_new (logs_message pid []) g
   \<and> messages (fst (pull_messages_from_step
        (ActionStep (bare_step\<lparr>tool_calls := Attr (Some [search_call]),
                                observations := Attr (Some (ustr ''Execution logs:\<newline>''))\<rparr>))
        gen_empty)) =
     [assistant (ustr ''**Step 1**''),
      parent_message search_call (ustr ''call_1''),
      logs_message (ustr ''call_1'') [],
      assistant (span_open @ ustr ''Step 1 | Duration: 1.5'' @ span_close),
      assistant (ustr ''-----'')]"
proof -
  have "observations_part
     (st\<lparr>observations := Attr (Some (ustr ''Execution logs:   \<newline>  done\<newline>''))\<rparr>) pid g =
     yield_new (logs_message pid (ustr ''done'')) g"
    by (simp add: observations_part_def text_defs pat_defs)
  moreover have "observations_part
     (st\<lparr>observations := Attr (Some (ustr ''Execution logs:\<newline>''))\<rparr>) pid g =
     yield_new (logs_message pid []) g"
    by (simp add: observations_part_def text_defs pat_defs)
  moreover have "messages (fst (pull_messages_from_step
        (ActionStep (bare_step\<lparr>tool_calls := Attr (Some [search_call]),
                                observations := Attr (Some (ustr ''Execution logs:\<newline>''))\<rparr>))
        gen_empty)) =
     [assistant (ustr ''**Step 1**''),
      parent_message search_call (ustr ''call_1''),
      logs_message (ustr ''call_1'') [],
      assistant (span_open @ ustr ''Step 1 | Duration: 1.5'' @ span_close),
      assistant (ustr ''-----'')]"
    by (simp add: bare_step_def part_defs num_defs text_defs pat_defs)
  ultimately show ?thesis by (intro conjI)
qed

section \<open>Errors without tool calls\<close>

text \<open>
  C2. The claim: a step whose \<open>tool_calls\<close> is absent or an empty list and whose
  \<open>error\<close> is set yields one standalone error message, and the extraction succeeds.
  What the source does: with \<open>tool_calls\<close> set to \<open>None\<close> the standalone error
  message is yielded; with the empty list the extraction ends with \<open>IndexError\<close>
  after the header and the model output, whatever the error field holds, and no error
  message is yielded.
\<close>

theorem empty_tool_calls_index_error:
  "tool_calls_part (st\<lparr>tool_calls := Attr None, error := Attr (Some e)\<rparr>) g =
     (yield_new (standalone_error_message e) g, None)
   \<and> pull_messages_from_step (ActionStep (st\<lparr>tool_calls := Attr (Some [])\<rparr>)) g =
     (model_output_part st (yield_new (assistant (ustr ''**'' @ step_label st @ ustr ''**'')) g),
      Some IndexError)
   \<and> pull_messages_from_step
       (ActionStep (bare_step\<lparr>tool_calls := Attr (Some []),
                               error := Attr (Some (PyOther (ustr ''boom'')))\<rparr>)) gen_empty =
     (yield_new (assistant (ustr ''**Step 1**'')) gen_empty, Some IndexError)"
proof -
  have "tool_calls_part (st\<lparr>tool_calls := Attr None, error := Attr (Some e)\<rparr>) g =
     (yield_new (standalone_error_message e) g, None)"
    by (simp add: tool_calls_part_def standalone_error_part_def)
  moreover have "pull_messages_from_step (ActionStep (st\<lparr>tool_calls := Attr (Some [])\<rparr>)) g =
     (model_output_part st (yield_new (assistant (ustr ''**'' @ step_label st @ ustr ''**'')) g),
      Some IndexError)"
  proof -
    have "step_label (st\<lparr>tool_calls := Attr (Some [])\<rparr>) = step_label st"
      by (simp add: step_label_def)
    moreover have "model_output_part (st\<lparr>tool_calls := Attr (Some [])\<rparr>) = model_output_part st"
      by (simp add: model_output_part_def fun_eq_iff)
    moreover have "tool_calls_part (st\<lparr>tool_calls := Attr (Some [])\<rparr>) g' = (g', Some IndexError)"
      for g'
      by (simp add: tool_calls_part_def)
    ultimately show ?thesis
      by (simp add: pull_messages_from_step_def Let_def)
  qed
  moreover have "pull_messages_from_step
       (ActionStep (bare_step\<lparr>tool_calls := Attr (Some []),
                               error := Attr (Some (PyOther (ustr ''boom'')))\<rparr>)) gen_empty =
     (yield_new (assistant (ustr ''**Step 1**'')) gen_empty, Some IndexError)"
    by (simp add: bare_step_def part_defs num_defs ustr_def)
  ultimately show ?thesis by (intro conjI)
qed

section \<open>The duration in the footnote\<close>

text \<open>
  C3. The claim: when the step has a \<open>duration\<close>, the footnote is yielded, with the
  duration segment exactly when the duration is truthy and without it otherwise.
  What the source does: when the duration is \<open>None\<close> or zero, the footnote part ends
  with \<open>TypeError\<close> and yields nothing; the run of the bare step with such a duration
  yields the header only.
\<close>

theorem falsy_duration_type_error:
  "footnote_part (st\<lparr>duration := Attr None\<rparr>) g = (g, Some TypeError)
   \<and> footnote_part (st\<lparr>duration := Attr (Some (Dyadic 0 e))\<rparr>) g = (g, Some TypeError)
   \<and> pull_messages_from_step (ActionStep (bare_step\<lparr>duration := Attr None\<rparr>)) gen_empty =
     (yield_new (assistant (ustr ''**Step 1**'')) gen_empty, Some TypeError)
   \<and> pull_messages_from_step (ActionStep (bare_step\<lparr>duration := Attr (Some (Dyadic 0 0))\<rparr>))
       gen_empty =
     (yield_new (assistant (ustr ''**Step 1**'')) gen_empty, Some TypeError)"
proof -
  have t: "token_str (st\<lparr>duration := d\<rparr>) = token_str st" for d
    by (simp add: token_str_def split: attr.split)
  have d1: "duration_str (st\<lparr>duration := Attr None\<rparr>) = Inl TypeError"
    by (simp add: duration_str_def step_duration_def)
  have d2: "duration_str (st\<lparr>duration := Attr (Some (Dyadic 0 e))\<rparr>) = Inl TypeError"
    by (simp add: duration_str_def step_duration_def)
  have f: "footnote_part (st\<lparr>duration := Attr None\<rparr>) g = (g, Some TypeError)
     \<and> footnote_part (st\<lparr>duration := Attr (Some (Dyadic 0 e))\<rparr>) g = (g, Some TypeError)"
  proof (cases "token_str st")
    case (Inl x)
    from token_str_Inl [OF Inl] have "x = TypeError" .
    with Inl t show ?thesis by (simp add: footnote_part_def)
  next
    case (Inr x)
    with t d1 d2 show ?thesis by (simp add: footnote_part_def)
  qed
  have r1: "pull_messages_from_step (ActionStep (bare_step\<lparr>duration := Attr None\<rparr>)) gen_empty =
     (yield_new (assistant (ustr ''**Step 1**'')) gen_empty, Some TypeError)"
    by (simp add: bare_step_def part_defs num_defs ustr_def)
  have r2: "pull_messages_from_step (ActionStep (bare_step\<lparr>duration := Attr (Some (Dyadic 0 0))\<rparr>))
       gen_empty =
     (yield_new (assistant (ustr ''**Step 1**'')) gen_empty, Some TypeError)"
    by (simp add: bare_step_def part_defs num_defs ustr_def)
  from f r1 r2 show ?thesis by (intro conjI) simp_all
qed

section \<open>The model output\<close>

text \<open>
  C4. When the trimmed model output is \<open>x\<close>, a newline, the closing fence, any run of
  whitespace (a newline, other spacing, or none) and \<open><end_code>\<close>, or is \<open>x\<close>, a
  newline, \<open><end_code>\<close>, any run of whitespace and the closing fence, the message
  yielded for it, the second of the step, has the content \<open>x\<close>, a newline and the
  closing fence.
\<close>

theorem end_code_markers_normalised:
  assumes "model_output st = Attr (Some mo)"
    and "\<forall>c\<in>set ws. is_space c"
    and "strip mo = ustr ''x\<newline>```'' @ ws @ ustr ''<end_code>'' \<or>
         strip mo = ustr ''x\<newline><end_code>'' @ ws @ ustr ''```''"
  shows "\<exists>rest. messages (fst (pull_messages_from_step (ActionStep st) gen_empty)) =
           assistant (ustr ''**'' @ step_label st @ ustr ''**'') #
           assistant (ustr ''x\<newline>```'') # rest"
proof -
  from assms(2,3) have "clean_model_output mo = ustr ''x\<newline>```''"
    using clean_fence_spaces_end clean_end_spaces_fence by blast
  with assms(1) have "messages (model_output_part st
        (yield_new (assistant (ustr ''**'' @ step_label st @ ustr ''**'')) gen_empty)) =
      [assistant (ustr ''**'' @ step_label st @ ustr ''**''), assistant (ustr ''x\<newline>```'')]"
    by (simp add: model_output_part_def messages_yield_new) (simp add: messages_def gen_empty_def)
  with pull_extends [of st gen_empty] show ?thesis by simp
qed

theorem end_code_markers_normalised_witness:
  "model_output (bare_step\<lparr>model_output := Attr (Some (ustr ''  x\<newline>```\<newline><end_code> ''))\<rparr>) =
     Attr (Some (ustr ''  x\<newline>```\<newline><end_code> '')) \<and>
   is_space 10 \<and>
   strip (ustr ''  x\<newline>```\<newline><end_code> '') = ustr ''x\<newline>```'' @ [10] @ ustr ''<end_code>'' \<and>
   (\<exists>rest. messages (fst (pull_messages_from_step
        (ActionStep (bare_step\<lparr>model_output := Attr (Some (ustr ''  x\<newline>```\<newline><end_code> ''))\<rparr>))
        gen_empty)) =
      assistant (ustr ''**'' @
         step_label (bare_step\<lparr>model_output := Attr (Some (ustr ''  x\<newline>```\<newline><end_code> ''))\<rparr>) @
         ustr ''**'') #
      assistant (ustr ''x\<newline>```'') # rest)"
proof -
  have h1: "model_output (bare_step\<lparr>model_output := Attr (Some (ustr ''  x\<newline>```\<newline><end_code> ''))\<rparr>) =
     Attr (Some (ustr ''  x\<newline>```\<newline><end_code> ''))"
    by simp
  have h2: "\<forall>c\<in>set [10]. is_space c"
    by (simp add: is_space_def)
  have h3: "strip (ustr ''  x\<newline>```\<newline><end_code> '') = ustr ''x\<newline>```'' @ [10] @ ustr ''<end_code>''"
    by (simp add: text_defs)
  from h3 have h3': "strip (ustr ''  x\<newline>```\<newline><end_code> '') = ustr ''x\<newline>```'' @ [10] @ ustr ''<end_code>'' \<or>
      strip (ustr ''  x\<newline>```\<newline><end_code> '') = ustr ''x\<newline><end_code>'' @ [10] @ ustr ''```''"
    by (rule disjI1)
  have h2': "is_space 10"
    by (simp add: is_space_def)
  from h1 h2' h3 end_code_markers_normalised [OF h1 h2 h3'] show ?thesis by blast
qed

section \<open>The parent message of a code call\<close>

text \<open>
  C5. When the only tool call of a step is named \<open>python_interpreter\<close> and its
  arguments are the dictionary with the single entry \<open>answer\<close>: \<open>print(1)\<close>, the
  parent message has the content \<open>```python\<close>, a newline, \<open>print(1)\<close>, a newline and
  the closing fence; it carries the id \<open>call_1\<close> and the status \<open>pending\<close>, the
  messages after it up to the footnote are its children, and no other message has
  metadata.
\<close>

theorem code_call_parent_content:
  assumes "tool_calls st = Attr (Some [tc])"
    and "name tc = ustr ''python_interpreter''"
    and "arguments tc = ArgsDict [(ustr ''answer'', PyStr (ustr ''print(1)''))] r"
  shows "\<exists>pre kids post.
     messages (fst (pull_messages_from_step (ActionStep st) gen_empty)) =
       pre @ \<lparr>role = ustr ''assistant'',
               content = Text (ustr ''```python\<newline>print(1)\<newline>```''),
               metadata = \<lparr>title = Some (tool_title (ustr ''python_interpreter'')),
                           id_key = Some (ustr ''call_1''), parent_id = None,
                           status = Some (ustr ''pending'')\<rparr>\<rparr> # kids @ post \<and>
     (\<forall>m\<in>set kids. is_child (ustr ''call_1'') m) \<and>
     (\<forall>m\<in>set (pre @ post). metadata m = no_metadata)"
proof -
  have pid: "parent_id_of [tc] = ustr ''call_1''"
    by (simp add: parent_id_of_def num_defs ustr_def)
  have pm: "parent_message tc (ustr ''call_1'') =
      \<lparr>role = ustr ''assistant'',
       content = Text (ustr ''```python\<newline>print(1)\<newline>```''),
       metadata = \<lparr>title = Some (tool_title (ustr ''python_interpreter'')),
                   id_key = Some (ustr ''call_1''), parent_id = None,
                   status = Some (ustr ''pending'')\<rparr>\<rparr>"
    using code_call_content [OF assms(2,3)] assms(2) by (simp add: parent_message_def)
  from pull_structure [OF assms(1), of gen_empty]
  obtain pre kids post where
    "yielded (fst (pull_messages_from_step (ActionStep st) gen_empty)) =
       yielded gen_empty @ numbered (length (store gen_empty))
         (pre @ parent_message tc (parent_id_of [tc]) # kids @ post)"
    "\<forall>m\<in>set (pre @ post). metadata m = no_metadata"
    "\<forall>m\<in>set kids. is_child (parent_id_of [tc]) m"
    by blast
  then have "messages (fst (pull_messages_from_step (ActionStep st) gen_empty)) =
       pre @ parent_message tc (ustr ''call_1'') # kids @ post"
    and "\<forall>m\<in>set (pre @ post). metadata m = no_metadata"
    and "\<forall>m\<in>set kids. is_child (ustr ''call_1'') m"
    by (simp_all add: pid messages_def gen_empty_def map_snd_numbered)
  then show ?thesis
    unfolding pm by blast
qed


theorem code_call_parent_content_witness:
  "tool_calls (bare_step\<lparr>tool_calls := Attr (Some [code_call])\<rparr>) = Attr (Some [code_call]) \<and>
   name code_call = ustr ''python_interpreter'' \<and>
   arguments code_call =
     ArgsDict [(ustr ''answer'', PyStr (ustr ''print(1)''))] (ustr ''{'answer': 'print(1)'}'') \<and>
   (\<exists>pre kids post.
     messages (fst (pull_messages_from_step
        (ActionStep (bare_step\<lparr>tool_calls := Attr (Some [code_call])\<rparr>)) gen_empty)) =
       pre @ \<lparr>role = ustr ''assistant'',
               content = Text (ustr ''```python\<newline>print(1)\<newline>```''),
               metadata = \<lparr>title = Some (tool_title (ustr ''python_interpreter'')),
                           id_key = Some (ustr ''call_1''), parent_id = None,
                           status = Some (ustr ''pending'')\<rparr>\<rparr> # kids @ post)"
proof -
  have h1: "tool_calls (bare_step\<lparr>tool_calls := Attr (Some [code_call])\<rparr>) = Attr (Some [code_call])"
    by simp
  have h2: "name code_call = ustr ''python_interpreter''"
    by (simp add: code_call_def)
  have h3: "arguments code_call =
     ArgsDict [(ustr ''answer'', PyStr (ustr ''print(1)''))] (ustr ''{'answer': 'print(1)'}'')"
    by (simp add: code_call_def)
  from h1 h2 h3 code_call_parent_content [OF h1 h2 h3] show ?thesis by blast
qed

section \<open>Parent and children\<close>



section \<open>Token counts\<close>

text \<open>
  C7. When the model exposes integer values \<open>i\<close> and \<open>ou\<close> for the token counts of
  its last call, one iteration of the streamer adds them to its two totals, and the step
  it hands to the extractor is the step it received, with \<open>input_token_count\<close> and
  \<open>output_token_count\<close> overwritten by \<open>i\<close> and \<open>ou\<close> (not by the totals) when it
  is an action step, and unchanged otherwise.
\<close>

theorem token_counts_per_call:
  assumes "last_input_token_count m = Attr (Some i)"
    and "last_output_token_count m = Attr (Some ou)"
  shows "track_tokens m step s =
           Inr (s\<lparr>total_input_tokens := total_input_tokens s + i,
                   total_output_tokens := total_output_tokens s + ou,
                   step_log := Some (set_token_counts (Some i) (Some ou) step)\<rparr>,
                set_token_counts (Some i) (Some ou) step)
         \<and> stream_loop ((m, step) # rest) s =
           (case pull_messages_from_step (set_token_counts (Some i) (Some ou) step) (out s) of
              (g, Some e) \<Rightarrow>
                (s\<lparr>total_input_tokens := total_input_tokens s + i,
                   total_output_tokens := total_output_tokens s + ou,
                   step_log := Some (set_token_counts (Some i) (Some ou) step), out := g\<rparr>, Some e)
            | (g, None) \<Rightarrow>
                stream_loop rest
                  (s\<lparr>total_input_tokens := total_input_tokens s + i,
                     total_output_tokens := total_output_tokens s + ou,
                     step_log := Some (set_token_counts (Some i) (Some ou) step), out := g\<rparr>))
         \<and> set_token_counts (Some i) (Some ou) (ActionStep st) =
             ActionStep (st\<lparr>input_token_count := Attr (Some i), output_token_count := Attr (Some ou)\<rparr>)
         \<and> set_token_counts (Some i) (Some ou) (OtherStep v) = OtherStep v"
proof -
  have t: "track_tokens m step s =
           Inr (s\<lparr>total_input_tokens := total_input_tokens s + i,
                   total_output_tokens := total_output_tokens s + ou,
                   step_log := Some (set_token_counts (Some i) (Some ou) step)\<rparr>,
                set_token_counts (Some i) (Some ou) step)"
    using assms by (simp add: track_tokens_def Let_def)
  then show ?thesis by simp
qed


theorem token_counts_per_call_witness:
  "last_input_token_count counting_model = Attr (Some 1200) \<and>
   last_output_token_count counting_model = Attr (Some 5) \<and>
   track_tokens counting_model (ActionStep bare_step) stream_init =
     Inr (stream_init\<lparr>total_input_tokens := total_input_tokens stream_init + 1200,
             total_output_tokens := total_output_tokens stream_init + 5,
             step_log := Some (set_token_counts (Some 1200) (Some 5) (ActionStep bare_step))\<rparr>,
          set_token_counts (Some 1200) (Some 5) (ActionStep bare_step)) \<and>
   set_token_counts (Some 1200) (Some 5) (ActionStep bare_step) =
     ActionStep (bare_step\<lparr>input_token_count := Attr (Some 1200),
                            output_token_count := Attr (Some 5)\<rparr>) \<and>
   set_token_counts (Some 1200) (Some 5) (OtherStep (PyStr (ustr ''42''))) =
     OtherStep (PyStr (ustr ''42''))"
proof -
  have h1: "last_input_token_count counting_model = Attr (Some 1200)"
    by (simp add: counting_model_def)
  have h2: "last_output_token_count counting_model = Attr (Some 5)"
    by (simp add: counting_model_def)
  from h1 h2
    token_counts_per_call [OF h1 h2, of "ActionStep bare_step" stream_init "[]" bare_step
      "PyStr (ustr ''42'')"]
  show ?thesis by blast
qed

section \<open>The footnote\<close>

text \<open>
  C8. For a step with the input token count 1200, the output token count 5 and the
  duration 1.236 (the float of that literal, 5566449139429933 / 2 ^ 52), the footnote
  part yields the footnote with the content \<open>Input-tokens:1,200 | Output-tokens:5 |
  Duration: 1.24\<close> behind the step label, and the separator; and unless \<open>tool_calls\<close>
  is the empty list, the extraction ends without exception with these two messages.
\<close>

theorem footnote_tokens_and_duration:
  assumes "input_token_count st = Attr (Some 1200)"
    and "output_token_count st = Attr (Some 5)"
    and "duration st = Attr (Some (Dyadic 5566449139429933 (- 52)))"
  shows "footnote_part st g =
           (yield_new (assistant (ustr ''-----''))
              (yield_new (assistant (span_open @ step_label st @
                 ustr '' | Input-tokens:1,200 | Output-tokens:5 | Duration: 1.24'' @ span_close)) g),
            None)
         \<and> (tool_calls st \<noteq> Attr (Some []) \<longrightarrow>
              snd (pull_messages_from_step (ActionStep st) g) = None \<and>
              (\<exists>pre. messages (fst (pull_messages_from_step (ActionStep st) g)) =
                 pre @ [assistant (span_open @ step_label st @
                          ustr '' | Input-tokens:1,200 | Output-tokens:5 | Duration: 1.24'' @
                          span_close),
                        assistant (ustr ''-----'')]))"
proof (intro conjI impI)
  show "footnote_part st g =
           (yield_new (assistant (ustr ''-----''))
              (yield_new (assistant (span_open @ step_label st @
                 ustr '' | Input-tokens:1,200 | Output-tokens:5 | Duration: 1.24'' @ span_close)) g),
            None)"
    by (rule footnote_1200_5 [OF assms])
next
  let ?g2 = "model_output_part st (yield_new (assistant (ustr ''**'' @ step_label st @ ustr ''**'')) g)"
  assume "tool_calls st \<noteq> Attr (Some [])"
  then have "snd (tool_calls_part st ?g2) = None"
    by (rule tool_calls_part_no_raise)
  then have p: "pull_messages_from_step (ActionStep st) g =
      footnote_part st (fst (tool_calls_part st ?g2))"
    by (rule pull_action_step_ok)
  with footnote_1200_5 [OF assms] show "snd (pull_messages_from_step (ActionStep st) g) = None"
    by simp
  from p footnote_1200_5 [OF assms, of "fst (tool_calls_part st ?g2)"]
  have "messages (fst (pull_messages_from_step (ActionStep st) g)) =
      messages (fst (tool_calls_part st ?g2)) @
      [assistant (span_open @ step_label st @
         ustr '' | Input-tokens:1,200 | Output-tokens:5 | Duration: 1.24'' @ span_close),
       assistant (ustr ''-----'')]"
    by (simp add: messages_yield_new)
  then show "\<exists>pre. messages (fst (pull_messages_from_step (ActionStep st) g)) =
      pre @ [assistant (span_open @ step_label st @
               ustr '' | Input-tokens:1,200 | Output-tokens:5 | Duration: 1.24'' @ span_close),
             assistant (ustr ''-----'')]"
    by blast
qed

theorem footnote_tokens_and_duration_witness:
  "input_token_count metered_step = Attr (Some 1200) \<and>
   output_token_count metered_step = Attr (Some 5) \<and>
   duration metered_step = Attr (Some (Dyadic 5566449139429933 (- 52))) \<and>
   tool_calls metered_step \<noteq> Attr (Some []) \<and>
   footnote_part metered_step gen_empty =
     (yield_new (assistant (ustr ''-----''))
        (yield_new (assistant (span_open @ step_label metered_step @
           ustr '' | Input-tokens:1,200 | Output-tokens:5 | Duration: 1.24'' @ span_close))
           gen_empty),
      None) \<and>
   snd (pull_messages_from_step (ActionStep metered_step) gen_empty) = None \<and>
   (\<exists>pre. messages (fst (pull_messages_from_step (ActionStep metered_step) gen_empty)) =
      pre @ [assistant (span_open @ step_label metered_step @
               ustr '' | Input-tokens:1,200 | Output-tokens:5 | Duration: 1.24'' @ span_close),
             assistant (ustr ''-----'')])"
proof -
  have h1: "input_token_count metered_step = Attr (Some 1200)"
    by (simp add: metered_step_def)
  have h2: "output_token_count metered_step = Attr (Some 5)"
    by (simp add: metered_step_def)
  have h3: "duration metered_step = Attr (Some (Dyadic 5566449139429933 (- 52)))"
    by (simp add: metered_step_def)
  have h4: "tool_calls metered_step \<noteq> Attr (Some [])"
    by (simp add: metered_step_def bare_step_def)
  from h1 h2 h3 h4 footnote_tokens_and_duration [OF h1 h2 h3, of gen_empty]
  show ?thesis by blast
qed

section \<open>The final answer and the empty run\<close>

text \<open>
  C9. The rendering of the final answer is defined on each of the four variants and has
  no failing branch: a text gives the content \<open>**Final answer:**\<close>, a newline, the text
  and a newline; an image gives the file reference with its path and the type
  \<open>image/png\<close>; an audio gives the file reference with its path and the type
  \<open>audio/wav\<close>; any other value gives \<open>**Final answer:** \<close> followed by its \<open>str()\<close>.
  The streamer applies it to what \<open>handle_agent_output_types\<close> makes of the last step
  and yields the one message: shown here for a run of a single step that is not an action
  step, under a model without token counts.
\<close>

theorem final_answer_message_variants:
  "final_answer_message (AgentText t) =
     assistant (ustr ''**Final answer:**\<newline>'' @ t @ ustr ''\<newline>'')
   \<and> final_answer_message (AgentImage p) =
       \<lparr>role = ustr ''assistant'', content = FileRef p (ustr ''image/png''),
        metadata = no_metadata\<rparr>
   \<and> final_answer_message (AgentAudio p) =
       \<lparr>role = ustr ''assistant'', content = FileRef p (ustr ''audio/wav''),
        metadata = no_metadata\<rparr>
   \<and> final_answer_message (OtherValue v) = assistant (ustr ''**Final answer:** '' @ v)
   \<and> stream_to_gradio True h
       [(\<lparr>last_input_token_count = NoAttr, last_output_token_count = NoAttr\<rparr>, OtherStep x)] =
       (stream_init\<lparr>step_log := Some (OtherStep x),
                     out := yield_new (final_answer_message (h (OtherStep x))) gen_empty\<rparr>,
        None)"
  by (simp add: ustr_def stream_to_gradio_def track_tokens_def pull_messages_from_step_def
      stream_init_def)

text \<open>
  C10. When the run of the agent yields no step, the streamer yields no message and
  ends with \<open>UnboundLocalError\<close>: the loop variable that the final phase reads was
  never bound.
\<close>

theorem stream_to_gradio_empty_run:
  "stream_to_gradio True h [] = (stream_init, Some UnboundLocalError)
   \<and> messages (out (fst (stream_to_gradio True h []))) = []"
  by (simp add: stream_to_gradio_def stream_init_def messages_def gen_empty_def)

end
